theory Spec2Isabelle
  imports Main "HOL-Library.AList" "HOL-Library.Sublist"
begin

section \<open>The item builder of pipe2py: \<^verbatim>\<open>pipe2py/modules/pipeitembuilder.py\<close>\<close>

text \<open>
  The module holds one function with logic of its own:
  \<^verbatim>\<open>
  def parser(_, attrs, skip, **kwargs):
      dicts = [{a.key: a.value} for a in attrs]
      feed = kwargs['feed'] if skip else DotDict(cdicts(*dicts))
      return feed, skip
  \<close>
  \<^verbatim>\<open>pipe\<close> and \<^verbatim>\<open>asyncPipe\<close> are \<^verbatim>\<open>return parser(*args, **kwargs)\<close> under a decorator.
  \<^verbatim>\<open>DotDict\<close> (\<^verbatim>\<open>pipe2py.lib.dotdict\<close>) and \<^verbatim>\<open>cdicts\<close> (\<^verbatim>\<open>combine_dicts\<close> of
  \<^verbatim>\<open>pipe2py.lib.utils\<close>) are imported by the module and defined elsewhere.
\<close>

subsection \<open>Data\<close>

text \<open>
  The two failure kinds of the specification. In the source they are Python exceptions
  that \<^verbatim>\<open>parser\<close> lets through to its caller: \<^verbatim>\<open>a.key\<close> or \<^verbatim>\<open>a.value\<close> on an object
  without that attribute (an AttributeError, line 66) is of kind \<open>InvalidAttribute\<close>, as is
  the builder's rejection of an empty key; \<^verbatim>\<open>kwargs['feed']\<close> without that keyword
  (a KeyError, line 67) is of kind \<open>UpstreamMissing\<close>.
\<close>

datatype error = InvalidAttribute | UpstreamMissing

text \<open>
  An element of \<^verbatim>\<open>attrs\<close> is any Python object; the parser reads its attributes
  \<^verbatim>\<open>key\<close> and \<^verbatim>\<open>value\<close>. \<open>None\<close> stands for an object without the attribute, on which
  the access raises (a plain \<^verbatim>\<open>dict\<close>, the documented element type, is such an object).
\<close>

record 'v attr =
  key :: "string option"
  val :: "'v option"

text \<open>
  A value stored in an item is a scalar or a nested mapping. A mapping is a list of
  key/value pairs with distinct keys, in order of first insertion.
\<close>

datatype 'v nvalue = Scalar 'v | Mapping "(string \<times> 'v nvalue) list"

type_synonym 'v NestedItem = "(string \<times> 'v nvalue) list"

type_synonym 'v FlatEntry = "string \<times> 'v"

text \<open>
  What \<^verbatim>\<open>parser\<close> returns as \<^verbatim>\<open>feed\<close>: the caller's \<^verbatim>\<open>kwargs['feed']\<close>, of whatever
  type it has, or the item that was built.
\<close>

datatype ('u, 'v) feed = Upstream 'u | Built "'v NestedItem"

subsection \<open>The path-merge builder\<close>

text \<open>Python's \<^verbatim>\<open>key.split('.')\<close>: the result is never empty, \<^verbatim>\<open>''.split('.') == ['']\<close>.\<close>

fun split_on :: "char \<Rightarrow> string \<Rightarrow> string list" where
  "split_on c [] = [[]]"
| "split_on c (x # xs) =
     (if x = c then [] # split_on c xs
      else (case split_on c xs of [] \<Rightarrow> [[x]] | w # ws \<Rightarrow> (x # w) # ws))"

definition split_path :: "string \<Rightarrow> string list" where
  "split_path k = split_on (CHR ''.'') k"

definition is_space :: "char \<Rightarrow> bool" where
  "is_space c = (c \<in> set [CHR '' '', CHR 0x09, CHR 0x0A, CHR 0x0B, CHR 0x0C, CHR 0x0D])"

definition blank :: "string \<Rightarrow> bool" where
  "blank s = list_all is_space s"

text \<open>
  Modelled from the spec: the validity check of the Path-Merge Builder, which is part of
  \<^verbatim>\<open>DotDict\<close>/\<^verbatim>\<open>combine_dicts\<close> and not in the module. A key is invalid when it is
  zero-length, holds only the separator, or is whitespace-only after path splitting: every
  segment of its path is empty or whitespace.
\<close>

definition invalid_key :: "string \<Rightarrow> bool" where
  "invalid_key k = list_all blank (split_path k)"

text \<open>The mapping stored under a segment, or a new empty one when the segment is absent or
  holds a scalar.\<close>

definition sub_mapping :: "'v NestedItem \<Rightarrow> string \<Rightarrow> 'v NestedItem" where
  "sub_mapping m s = (case map_of m s of Some (Mapping m') \<Rightarrow> m' | _ \<Rightarrow> [])"

text \<open>
  Modelled from the spec: steps 2b and 2c of the Path-Merge Builder (the assignment of one
  dotted key by \<^verbatim>\<open>DotDict\<close>, which is not in the module). Walk from the root, creating a
  mapping at each segment but the last where none exists (a scalar there is overwritten),
  and set the last segment to the value.
\<close>

fun set_path :: "string list \<Rightarrow> 'v \<Rightarrow> 'v NestedItem \<Rightarrow> 'v NestedItem" where
  "set_path [] v m = m"
| "set_path [s] v m = AList.update s (Scalar v) m"
| "set_path (s # t # ts) v m =
     AList.update s (Mapping (set_path (t # ts) v (sub_mapping m s))) m"

text \<open>
  Modelled from the spec: step 2 of the Path-Merge Builder for one FlatEntry, with the
  builder's error condition on the key.
\<close>

definition merge_entry :: "'v FlatEntry \<Rightarrow> 'v NestedItem \<Rightarrow> error + 'v NestedItem" where
  "merge_entry e m =
     (if invalid_key (fst e) then Inl InvalidAttribute
      else Inr (set_path (split_path (fst e)) (snd e) m))"

text \<open>
  Modelled from the spec: the Path-Merge Builder, that is \<^verbatim>\<open>DotDict(cdicts(*dicts))\<close>, whose
  two functions are not in the module. Start from the empty item and merge the entries in
  sequence order; the first invalid key ends the merge with no item.
\<close>

fun merge_from :: "'v NestedItem \<Rightarrow> 'v FlatEntry list \<Rightarrow> error + 'v NestedItem" where
  "merge_from m [] = Inr m"
| "merge_from m (e # es) =
     (case merge_entry e m of Inl err \<Rightarrow> Inl err | Inr m' \<Rightarrow> merge_from m' es)"

definition path_merge :: "'v FlatEntry list \<Rightarrow> error + 'v NestedItem" where
  "path_merge es = merge_from [] es"




subsection \<open>The parser\<close>

text \<open>\<^verbatim>\<open>{a.key: a.value}\<close>: either attribute access may raise.\<close>

definition flat_entry :: "'v attr \<Rightarrow> error + 'v FlatEntry" where
  "flat_entry a =
     (case key a of None \<Rightarrow> Inl InvalidAttribute
      | Some k \<Rightarrow> (case val a of None \<Rightarrow> Inl InvalidAttribute | Some v \<Rightarrow> Inr (k, v)))"

text \<open>\<^verbatim>\<open>dicts = [{a.key: a.value} for a in attrs]\<close>: the comprehension runs over the whole
  list and stops at the first element that raises.\<close>

fun dicts_of :: "'v attr list \<Rightarrow> error + 'v FlatEntry list" where
  "dicts_of [] = Inr []"
| "dicts_of (a # as) =
     (case flat_entry a of Inl err \<Rightarrow> Inl err
      | Inr d \<Rightarrow> (case dicts_of as of Inl err \<Rightarrow> Inl err | Inr ds \<Rightarrow> Inr (d # ds)))"

text \<open>
  \<^verbatim>\<open>parser(_, attrs, skip, **kwargs)\<close>. The builder \<^verbatim>\<open>DotDict(cdicts(*dicts))\<close> is the
  parameter \<open>build\<close>; \<^verbatim>\<open>kwargs\<close> is the list of the keyword arguments that were passed.
  Python evaluates only the chosen branch of \<^verbatim>\<open>x if skip else y\<close>.
\<close>

definition parser ::
  "('v FlatEntry list \<Rightarrow> error + 'v NestedItem) \<Rightarrow> 'a \<Rightarrow> 'v attr list \<Rightarrow> bool \<Rightarrow>
     (string \<times> 'u) list \<Rightarrow> error + (('u, 'v) feed \<times> bool)" where
  "parser build u attrs skip kwargs =
     (case dicts_of attrs of Inl err \<Rightarrow> Inl err
      | Inr dicts \<Rightarrow>
          (if skip then
             (case map_of kwargs ''feed'' of None \<Rightarrow> Inl UpstreamMissing
              | Some f \<Rightarrow> Inr (Upstream f, skip))
           else
             (case build dicts of Inl err \<Rightarrow> Inl err
              | Inr item \<Rightarrow> Inr (Built item, skip))))"

subsection \<open>Reading an item\<close>




text \<open>A descriptor that exposes both attributes.\<close>

definition well_formed :: "'v attr \<Rightarrow> bool" where
  "well_formed a = (key a \<noteq> None \<and> val a \<noteq> None)"

text \<open>The object \<^verbatim>\<open>Objectify({'key': k, 'value': v})\<close> of the doctest: both attributes are there.\<close>

definition descriptor :: "'v FlatEntry \<Rightarrow> 'v attr" where
  "descriptor e = \<lparr>key = Some (fst e), val = Some (snd e)\<rparr>"

section \<open>Properties\<close>

subsection \<open>Paths and single assignments\<close>



lemma split_on_no_sep: "c \<notin> set s \<Longrightarrow> split_on c s = [s]"
  by (induction s) auto

lemma sub_mapping_update: "sub_mapping (AList.update s x m) s = (case x of Mapping m' \<Rightarrow> m' | Scalar y \<Rightarrow> [])"
  by (simp add: sub_mapping_def update_conv' split: nvalue.splits)






subsection \<open>The merge as a whole\<close>


lemma merge_from_invalid:
  "e \<in> set es \<Longrightarrow> invalid_key (fst e) \<Longrightarrow> merge_from m es = Inl InvalidAttribute"
  by (induction es arbitrary: m) (auto simp: merge_entry_def split: sum.splits)

lemma merge_from_error: "merge_from m es = Inl err \<Longrightarrow> err = InvalidAttribute"
  by (induction es arbitrary: m) (auto simp: merge_entry_def split: sum.splits if_splits)






lemma split_path_plain: "CHR ''.'' \<notin> set k \<Longrightarrow> split_path k = [k]"
  by (simp add: split_path_def split_on_no_sep)



subsection \<open>Normalising the descriptors\<close>


lemma dicts_of_error: "dicts_of as = Inl err \<Longrightarrow> err = InvalidAttribute"
  by (induction as arbitrary: err) (auto simp: flat_entry_def split: sum.splits option.splits)

lemma dicts_of_malformed:
  "a \<in> set as \<Longrightarrow> \<not> well_formed a \<Longrightarrow> dicts_of as = Inl InvalidAttribute"
  by (induction as) (auto simp: flat_entry_def well_formed_def split: sum.splits option.splits dest: dicts_of_error)

lemma dicts_of_well_formed:
  "list_all well_formed as \<Longrightarrow>
     dicts_of as = Inr (map (\<lambda>a. (the (key a), the (val a))) as)"
  by (induction as) (auto simp: flat_entry_def well_formed_def)

lemma dicts_of_Inr:
  "dicts_of as = Inr ds \<Longrightarrow> list_all well_formed as \<and> ds = map (\<lambda>a. (the (key a), the (val a))) as"
  by (induction as arbitrary: ds) (auto simp: flat_entry_def well_formed_def split: sum.splits option.splits)

subsection \<open>Evaluation and derived facts\<close>

lemmas merge_eval =
  path_merge_def merge_entry_def invalid_key_def split_path_def blank_def is_space_def
  sub_mapping_def


lemmas parser_eval = parser_def flat_entry_def descriptor_def






lemma invalid_key_empty: "invalid_key []"
  by (simp add: invalid_key_def split_path_def blank_def)

lemma split_on_only_sep: "set k \<subseteq> {c} \<Longrightarrow> list_all (\<lambda>s. s = []) (split_on c k)"
  by (induction k) auto

lemma invalid_key_only_separator: "set k \<subseteq> {CHR ''.''} \<Longrightarrow> invalid_key k"
  using split_on_only_sep [of k "CHR ''.''"]
  by (auto simp: invalid_key_def split_path_def blank_def list_all_iff)

lemma separator_not_space: "\<not> is_space (CHR ''.'')"
  by (simp add: is_space_def)

lemma invalid_key_blank: "blank k \<Longrightarrow> invalid_key k"
proof -
  assume b: "blank k"
  then have "CHR ''.'' \<notin> set k"
    using separator_not_space by (auto simp: blank_def list_all_iff)
  then have "split_path k = [k]" by (rule split_path_plain)
  with b show ?thesis by (simp add: invalid_key_def)
qed

section \<open>The claims\<close>



text \<open>
  C2. Scenario 3: merging \<^verbatim>\<open>a.b = 1\<close> and then \<^verbatim>\<open>a.b.c = 2\<close> returns exactly
  \<^verbatim>\<open>{"a": {"b": {"c": 2}}}\<close>, with no error. In general, a scalar that occupies an
  intermediate segment of a path is replaced by a new mapping that holds the rest of the
  path only.
\<close>

theorem scalar_replaced_by_mapping:
  "parser path_merge u
     [\<lparr>key = Some ''a.b'', val = Some (1::int)\<rparr>, \<lparr>key = Some ''a.b.c'', val = Some 2\<rparr>]
     False kwargs =
     Inr (Built [(''a'', Mapping [(''b'', Mapping [(''c'', Scalar 2)])])], False) \<and>
   set_path (s # t # ts) v (AList.update s (Scalar x) m) =
     AList.update s (Mapping (set_path (t # ts) v [])) m"
  by (simp add: parser_eval merge_eval update_conv')


text \<open>
  C4 (as amended). When every descriptor exposes \<^verbatim>\<open>key\<close> and \<^verbatim>\<open>value\<close> and the caller
  supplies an upstream item, the parser in skip mode returns that item unchanged, whatever
  the descriptors hold. The builder is not invoked: the result is the same for every
  \<open>build\<close>, also for one that fails on every input.
\<close>

theorem skip_returns_upstream:
  assumes "\<forall>a\<in>set attrs. well_formed a" and "map_of kwargs ''feed'' = Some f"
  shows "parser build u attrs True kwargs = Inr (Upstream f, True)"
proof -
  from assms(1) have "list_all well_formed attrs" by (simp add: list_all_iff)
  then have "dicts_of attrs = Inr (map (\<lambda>a. (the (key a), the (val a))) attrs)"
    by (rule dicts_of_well_formed)
  with assms(2) show ?thesis by (simp add: parser_def)
qed

theorem skip_returns_upstream_witness:
  "well_formed \<lparr>key = Some ''.'', val = Some ''v''\<rparr> \<and>
   map_of [(''feed'', [(''x'', Scalar (1::int))])] ''feed'' = Some [(''x'', Scalar 1)] \<and>
   parser path_merge () [\<lparr>key = Some ''.'', val = Some ''v''\<rparr>] True
     [(''feed'', [(''x'', Scalar (1::int))])] =
     Inr (Upstream [(''x'', Scalar 1)], True)"
  using skip_returns_upstream [of "[\<lparr>key = Some ''.'', val = Some ''v''\<rparr>]"
      "[(''feed'', [(''x'', Scalar (1::int))])]" "[(''x'', Scalar 1)]" path_merge "()"]
  by (simp add: well_formed_def)

text \<open>
  The claim as written holds for every descriptor sequence. A descriptor without a
  \<^verbatim>\<open>key\<close> attribute makes line 66 raise before the skip flag is looked at, and the
  upstream item of Scenario 4 is not returned.
\<close>

theorem skip_malformed_counterexample:
  "map_of [(''feed'', [(''x'', Scalar (1::int))])] ''feed'' = Some [(''x'', Scalar 1)] \<and>
   parser path_merge () [\<lparr>key = None, val = Some ''v''\<rparr>] True
     [(''feed'', [(''x'', Scalar (1::int))])] \<noteq>
     Inr (Upstream [(''x'', Scalar 1)], True)"
  by (simp add: parser_eval)

text \<open>
  C5. With skip false, a descriptor whose key is zero-length, consists only of the
  separator, or is whitespace-only after path splitting, anywhere in the sequence, makes
  the parser fail with \<open>InvalidAttribute\<close>; the result is the failure and no item.
\<close>

theorem invalid_key_rejected:
  assumes "a \<in> set attrs" and "key a = Some k"
    and "k = [] \<or> set k \<subseteq> {CHR ''.''} \<or> list_all blank (split_path k)"
  shows "parser path_merge u attrs False kwargs = Inl InvalidAttribute"
proof (cases "dicts_of attrs")
  case (Inl err)
  then have "err = InvalidAttribute" by (rule dicts_of_error)
  with Inl show ?thesis by (simp add: parser_def)
next
  case (Inr ds)
  then have ds: "ds = map (\<lambda>a. (the (key a), the (val a))) attrs"
    by (simp add: dicts_of_Inr)
  from assms(1,2) have "(k, the (val a)) \<in> set ds"
    unfolding ds by force
  moreover from assms(3) have "invalid_key k"
    using invalid_key_empty invalid_key_only_separator by (auto simp: invalid_key_def)
  ultimately have "merge_from [] ds = Inl InvalidAttribute"
    by (intro merge_from_invalid [of "(k, the (val a))"]) simp_all
  with Inr show ?thesis by (simp add: parser_def path_merge_def)
qed

theorem invalid_key_rejected_witness:
  "\<lparr>key = Some '' . '', val = Some ''v''\<rparr> \<in>
     set [\<lparr>key = Some ''title'', val = Some ''the title''\<rparr>,
          \<lparr>key = Some '' . '', val = Some ''v''\<rparr>] \<and>
   list_all blank (split_path '' . '') \<and>
   parser path_merge ()
     [\<lparr>key = Some ''title'', val = Some ''the title''\<rparr>,
      \<lparr>key = Some '' . '', val = Some ''v''\<rparr>] False ([] :: (string \<times> unit) list) =
     Inl InvalidAttribute"
  using invalid_key_rejected [of "\<lparr>key = Some '' . '', val = Some ''v''\<rparr>"
      "[\<lparr>key = Some ''title'', val = Some ''the title''\<rparr>,
        \<lparr>key = Some '' . '', val = Some ''v''\<rparr>]" "'' . ''" "()"
      "[] :: (string \<times> unit) list"]
  by (simp add: merge_eval)

text \<open>
  C6 (as amended). In skip mode the parser fails with \<open>UpstreamMissing\<close> exactly when no
  \<^verbatim>\<open>feed\<close> keyword was passed and every descriptor exposes \<^verbatim>\<open>key\<close> and \<^verbatim>\<open>value\<close>. With
  an upstream item supplied that failure never occurs.
\<close>

theorem upstream_missing_iff:
  "parser build u attrs True kwargs = Inl UpstreamMissing \<longleftrightarrow>
     list_all well_formed attrs \<and> map_of kwargs ''feed'' = None"
proof (cases "dicts_of attrs")
  case (Inl err)
  then have err: "err = InvalidAttribute" by (rule dicts_of_error)
  have "\<not> list_all well_formed attrs"
    using Inl dicts_of_well_formed [of attrs] by auto
  with Inl err show ?thesis by (simp add: parser_def)
next
  case (Inr ds)
  then have "list_all well_formed attrs" by (simp add: dicts_of_Inr)
  with Inr show ?thesis by (simp add: parser_def split: option.splits)
qed

theorem upstream_missing_iff_witness:
  "parser path_merge () [\<lparr>key = Some ''title'', val = Some ''the title''\<rparr>] True
     ([] :: (string \<times> unit) list) = Inl UpstreamMissing \<and>
   list_all well_formed [\<lparr>key = Some ''title'', val = Some ''the title''\<rparr>] \<and>
   map_of ([] :: (string \<times> unit) list) ''feed'' = None"
  using upstream_missing_iff [of path_merge "()"
      "[\<lparr>key = Some ''title'', val = Some ''the title''\<rparr>]" "[] :: (string \<times> unit) list"]
  by (simp add: well_formed_def)

text \<open>
  The claim as written holds for every invocation in skip mode without an upstream item.
  With a descriptor that lacks \<^verbatim>\<open>key\<close> the failure is the one of line 66, not
  \<open>UpstreamMissing\<close>.
\<close>

theorem upstream_missing_counterexample:
  "map_of ([] :: (string \<times> unit) list) ''feed'' = None \<and>
   parser path_merge () [\<lparr>key = None, val = Some ''v''\<rparr>] True
     ([] :: (string \<times> unit) list) \<noteq> Inl UpstreamMissing"
  by (simp add: parser_eval)



text \<open>
  C9. The comprehension of line 66 runs before the skip flag is looked at: a descriptor
  without \<^verbatim>\<open>key\<close> or without \<^verbatim>\<open>value\<close> anywhere in the sequence makes the parser fail
  in skip mode too, also when an upstream item was supplied.
\<close>

theorem malformed_fails_in_skip_mode:
  assumes "a \<in> set attrs" and "key a = None \<or> val a = None"
  shows "parser build u attrs True kwargs = Inl InvalidAttribute"
proof -
  from assms(2) have "\<not> well_formed a" by (auto simp: well_formed_def)
  with assms(1) have "dicts_of attrs = Inl InvalidAttribute" by (rule dicts_of_malformed)
  then show ?thesis by (simp add: parser_def)
qed

theorem malformed_fails_in_skip_mode_witness:
  "\<lparr>key = Some ''desc'', val = None\<rparr> \<in>
     set [\<lparr>key = Some ''title'', val = Some ''the title''\<rparr>, \<lparr>key = Some ''desc'', val = None\<rparr>] \<and>
   val \<lparr>key = Some ''desc'', val = None :: string option\<rparr> = None \<and>
   parser path_merge ()
     [\<lparr>key = Some ''title'', val = Some ''the title''\<rparr>, \<lparr>key = Some ''desc'', val = None\<rparr>]
     True [(''feed'', [(''x'', Scalar (1::int))])] = Inl InvalidAttribute"
  using malformed_fails_in_skip_mode [of "\<lparr>key = Some ''desc'', val = None\<rparr>"
      "[\<lparr>key = Some ''title'', val = Some ''the title''\<rparr>, \<lparr>key = Some ''desc'', val = None\<rparr>]"
      path_merge "()" "[(''feed'', [(''x'', Scalar (1::int))])]"]
  by simp

text \<open>
  C10. Whenever the parser returns, the second component of the pair is the skip flag it
  was given.
\<close>

theorem returns_skip_flag:
  "parser build u attrs skip kwargs = Inr r \<Longrightarrow> snd r = skip"
  by (auto simp: parser_def split: sum.splits if_splits option.splits)

theorem returns_skip_flag_witness:
  "parser path_merge () [\<lparr>key = Some ''title'', val = Some ''the title''\<rparr>] False
     ([] :: (string \<times> unit) list) = Inr (Built [(''title'', Scalar ''the title'')], False) \<and>
   snd (Built [(''title'', Scalar ''the title'')] :: (unit, string) feed, False) = False"
proof -
  have h: "parser path_merge () [\<lparr>key = Some ''title'', val = Some ''the title''\<rparr>] False
     ([] :: (string \<times> unit) list) = Inr (Built [(''title'', Scalar ''the title'')], False)"
    by (simp add: parser_eval merge_eval)
  show ?thesis using h returns_skip_flag [OF h] by simp
qed

end
